theory Spec2Isabelle
  imports Main "HOL-Library.AList"
begin

section \<open>Values, configuration and errors\<close>

text \<open>
  The errors that travel through the startup pipeline of \<open>core.ts\<close>. The three
  \<open>Error(...)\<close> values thrown by \<open>validate\<close> get a constructor each; \<open>TypeError\<close> is
  what the JavaScript engine throws on a property read of \<open>undefined\<close> or on a call of
  a non-function; \<open>CriticalError\<close> is the class imported from \<open>./errors/critical\<close>;
  \<open>JsError msg\<close> is a plain \<open>new Error(msg)\<close>.
\<close>

datatype error =
    HolderConflict
  | HolderMissing string
  | HolderNotElement
  | TypeError
  | CriticalError string
  | JsError string

text \<open>
  The values a configuration field can hold. \<open>Element i\<close> is a DOM element node,
  \<open>PlainObject\<close> an object that is not one, \<open>Function r\<close> a callable whose call
  returns normally (\<open>None\<close>) or throws.
\<close>

datatype jsval =
    Undefined
  | Null
  | Str string
  | Bool bool
  | Num int
  | Element string
  | PlainObject
  | Function "error option"

fun truthy :: "jsval \<Rightarrow> bool" where
  "truthy Undefined = False"
| "truthy Null = False"
| "truthy (Str s) = (s \<noteq> [])"
| "truthy (Bool b) = b"
| "truthy (Num n) = (n \<noteq> 0)"
| "truthy (Element i) = True"
| "truthy PlainObject = True"
| "truthy (Function r) = True"

text \<open>
  Modelled from the spec: the helpers \<open>isString\<close>, \<open>isObject\<close>, \<open>isFunction\<close> of
  \<open>./utils\<close> and \<open>isElement\<close>, \<open>get\<close> of \<open>./dom\<close> are not among the sources; they
  are the type predicates their names say and the spec's "element lookup by identifier,
  element-type predicate". \<open>validate\<close> passes an element either way: were \<open>isObject\<close>
  false on it, the third check would not apply; being true, \<open>isElement\<close> lets it through.
\<close>

fun isString :: "jsval \<Rightarrow> bool" where
  "isString (Str s) = True"
| "isString v = False"

fun isObject :: "jsval \<Rightarrow> bool" where
  "isObject (Element i) = True"
| "isObject PlainObject = True"
| "isObject v = False"

fun isFunction :: "jsval \<Rightarrow> bool" where
  "isFunction (Function r) = True"
| "isFunction v = False"

fun isElement :: "jsval \<Rightarrow> bool" where
  "isElement (Element i) = True"
| "isElement v = False"

text \<open>
  The configuration object. \<open>data\<close> is \<open>None\<close> when the object has no content payload,
  \<open>Some bs\<close> when it has one with the blocks \<open>bs\<close>.
\<close>

record config =
  holderId :: jsval
  holder :: jsval
  data :: "string list option"
  autofocus :: jsval
  onReady :: jsval

text \<open>What the constructors of \<open>Core\<close> and \<open>ModuleJS\<close> take: \<open>Config|string\<close> or nothing.\<close>

datatype config_arg =
    NoConfig
  | HolderString string
  | ConfigObject config

definition holder_only :: "jsval \<Rightarrow> config" where
  "holder_only h =
     \<lparr>holderId = Undefined, holder = h, data = None, autofocus = Undefined,
      onReady = Undefined\<rparr>"

section \<open>Modules\<close>

datatype prepare_behaviour =
    PrepareAbsent
  | PrepareFulfils
  | PrepareRejects error
  | PrepareNeverSettles

datatype render_behaviour =
    RenderAbsent
  | RenderFulfils
  | RenderRejects error
  | RenderNeverSettles

text \<open>
  A module instance. \<open>ident\<close> is its identity (the position of the factory that built
  it), so that a peer view can hold references. The behaviour of its members is the
  environment's: \<open>prepare\<close>, \<open>renderer\<close> (the \<open>render\<close> member), \<open>destroy_hook\<close>
  (\<open>None\<close>: no \<open>destroy\<close> function; \<open>Some r\<close>: one whose call returns or throws),
  \<open>focus_ok\<close> (the caret and highlight members used by the autofocus step exist and
  return), \<open>methods\<close> (the names in the object \<open>methods\<close>), \<open>listeners\<close> (the
  registrations \<open>listeners.removeAll()\<close> drops). \<open>state\<close> is \<open>None\<close> until
  \<open>configureModules\<close> assigns it.
\<close>

record module_instance =
  ident :: nat
  prepare :: prepare_behaviour
  renderer :: render_behaviour
  destroy_hook :: "error option option"
  focus_ok :: bool
  methods :: "string list"
  listeners :: "string list"
  state :: "(string \<times> nat) list option"

text \<open>A module class: its \<open>displayName\<close> and what \<open>new Module(...)\<close> does.\<close>

record module_factory =
  displayName :: string
  construct :: "error + module_instance"

section \<open>The core\<close>

datatype completion = Returned | Threw error | NeverSettled

datatype log_entry =
    LogReady
  | LogNotReady error
  | LogPrepareSkipped string error
  | LogConstructSkipped string error

datatype event =
    Log log_entry
  | Constructed nat string
  | Preparing string
  | PrepareCalled string
  | PrepareSettled string "error option"
  | RenderCalled "string list"
  | RenderSettled "error option"
  | FocusCalled
  | Unhandled error
  | ApiCalled string
  | Disposed nat

datatype readiness = Pending | Resolved | Rejected error

text \<open>
  The fields of \<open>Core\<close>, with what the environment supplies (\<open>dom\<close>: the identifiers
  \<open>$.get\<close> finds; \<open>modules\<close>: the classes collected from \<open>./modules\<close>) and what the
  run leaves behind: \<open>events\<close>, in order, and \<open>settled\<close>, every call of \<open>onReady\<close>
  or \<open>onFail\<close>, in order.
\<close>

record core =
  dom :: "string list"
  modules :: "module_factory list"
  config :: config
  moduleInstances :: "(string \<times> module_instance) list"
  events :: "event list"
  settled :: "readiness list"

definition emit :: "event \<Rightarrow> core \<Rightarrow> core" where
  "emit e c = c\<lparr>events := events c @ [e]\<rparr>"

text \<open>A promise keeps its first settlement; later calls of its functions do nothing.\<close>

definition isReady :: "core \<Rightarrow> readiness" where
  "isReady c = (case settled c of [] \<Rightarrow> Pending | r # rs \<Rightarrow> r)"

text \<open>The setter and the getter of \<open>configuration\<close> (\<open>core.ts\<close>, lines 113 to 138).\<close>

definition set_configuration :: "config_arg \<Rightarrow> config" where
  "set_configuration a =
     (case a of
        ConfigObject cfg \<Rightarrow> cfg
      | HolderString s \<Rightarrow> holder_only (Str s)
      | NoConfig \<Rightarrow> holder_only Undefined)"

text \<open>
  \<open>$.get(holder)\<close>, as a truth value: an element with that identifier exists. \<open>validate\<close>
  follows (lines 145 to 162), its three checks in the order of the source.
\<close>

definition dom_get :: "string list \<Rightarrow> jsval \<Rightarrow> bool" where
  "dom_get ids v = (case v of Str s \<Rightarrow> s \<in> set ids | _ \<Rightarrow> False)"

definition validate :: "core \<Rightarrow> completion" where
  "validate c =
     (if truthy (holderId (config c)) \<and> truthy (holder (config c)) then Threw HolderConflict
      else if isString (holder (config c)) \<and> \<not> dom_get (dom c) (holder (config c))
        then Threw (HolderMissing (case holder (config c) of Str s \<Rightarrow> s | _ \<Rightarrow> []))
      else if truthy (holder (config c)) \<and> isObject (holder (config c))
              \<and> \<not> isElement (holder (config c))
        then Threw HolderNotElement
      else Returned)"

text \<open>
  \<open>obj[k] = v\<close> on an object kept as an association list in insertion order: an
  existing key keeps its place and gets the new value, a new key goes to the end. This
  is the object's own string keys; the key \<open>__proto__\<close>, whose assignment sets the
  prototype of a plain object instead of storing an entry, is outside of it.
\<close>

definition assign :: "string \<Rightarrow> 'v \<Rightarrow> (string \<times> 'v) list \<Rightarrow> (string \<times> 'v) list" where
  "assign k v obj = AList.update k v obj"

text \<open>
  One turn of the \<open>forEach\<close> of \<open>constructModules\<close> (lines 231 to 255), for the class
  at position \<open>fst p\<close>: the instance is stored under the class's \<open>displayName\<close>, or the
  constructor's error is logged and nothing is stored.
\<close>

definition constructModule :: "nat \<times> module_factory \<Rightarrow> core \<Rightarrow> core" where
  "constructModule p c =
     (case construct (snd p) of
        Inr inst \<Rightarrow>
          emit (Constructed (fst p) (displayName (snd p)))
            (c\<lparr>moduleInstances :=
                 assign (displayName (snd p)) (inst\<lparr>ident := fst p, state := None\<rparr>)
                   (moduleInstances c)\<rparr>)
      | Inl e \<Rightarrow> emit (Log (LogConstructSkipped (displayName (snd p)) e)) c)"

definition constructModules :: "core \<Rightarrow> core" where
  "constructModules c = fold constructModule (enumerate 0 (modules c)) c"

text \<open>
  \<open>getModulesDiff\<close> (lines 278 to 292): the loop over the registry with its \<open>continue\<close>,
  building \<open>diff\<close> from the empty object. The values it stores are references to the
  instances. \<open>configureModules\<close> (lines 262 to 271) assigns the result to the \<open>state\<close> of
  each instance in turn.
\<close>

fun diff_loop ::
  "(string \<times> module_instance) list \<Rightarrow> string \<Rightarrow> (string \<times> nat) list \<Rightarrow> (string \<times> nat) list"
where
  "diff_loop [] name diff = diff"
| "diff_loop ((moduleName, inst) # rest) name diff =
     (if moduleName = name then diff_loop rest name diff
      else diff_loop rest name (assign moduleName (ident inst) diff))"

definition getModulesDiff :: "core \<Rightarrow> string \<Rightarrow> (string \<times> nat) list" where
  "getModulesDiff c name = diff_loop (moduleInstances c) name []"

definition configureModule :: "string \<Rightarrow> core \<Rightarrow> core" where
  "configureModule name c =
     c\<lparr>moduleInstances :=
         AList.map_entry name (\<lambda>inst. inst\<lparr>state := Some (getModulesDiff c name)\<rparr>)
           (moduleInstances c)\<rparr>"

definition configureModules :: "core \<Rightarrow> core" where
  "configureModules c = fold configureModule (map fst (moduleInstances c)) c"

definition init :: "core \<Rightarrow> core" where
  "init c = configureModules (constructModules c)"

definition modulesToPrepare :: "string list" where
  "modulesToPrepare =
     [''Tools'', ''UI'', ''BlockManager'', ''Paste'', ''BlockSelection'',
      ''RectangleSelection'', ''CrossBlockSelection'', ''ReadOnly'']"

text \<open>
  One link of the promise chain \<open>start\<close> builds with \<open>reduce\<close>: the body of the
  callback for module \<open>m\<close>. \<open>Preparing m\<close> marks the entry of the body. Reading
  \<open>prepare\<close> from a missing instance and calling a missing \<open>prepare\<close> both throw a
  \<open>TypeError\<close> inside the \<open>try\<close>.
\<close>

definition prepareModule :: "string \<Rightarrow> core \<Rightarrow> core \<times> completion" where
  "prepareModule m c =
     (case map_of (moduleInstances c) m of
        None \<Rightarrow> (emit (Log (LogPrepareSkipped m TypeError)) (emit (Preparing m) c), Returned)
      | Some inst \<Rightarrow>
          (case prepare inst of
             PrepareAbsent \<Rightarrow>
               (emit (Log (LogPrepareSkipped m TypeError)) (emit (Preparing m) c), Returned)
           | PrepareFulfils \<Rightarrow>
               (emit (PrepareSettled m None) (emit (PrepareCalled m) (emit (Preparing m) c)),
                Returned)
           | PrepareNeverSettles \<Rightarrow>
               (emit (PrepareCalled m) (emit (Preparing m) c), NeverSettled)
           | PrepareRejects e \<Rightarrow>
               (case e of
                  CriticalError msg \<Rightarrow>
                    (emit (PrepareSettled m (Some e))
                       (emit (PrepareCalled m) (emit (Preparing m) c)),
                     Threw (JsError msg))
                | _ \<Rightarrow>
                    (emit (Log (LogPrepareSkipped m e))
                       (emit (PrepareSettled m (Some e))
                          (emit (PrepareCalled m) (emit (Preparing m) c))),
                     Returned))))"

fun prepare_chain :: "string list \<Rightarrow> core \<Rightarrow> core \<times> completion" where
  "prepare_chain [] c = (c, Returned)"
| "prepare_chain (m # ms) c =
     (case prepareModule m c of
        (c', Returned) \<Rightarrow> prepare_chain ms c'
      | (c', Threw e) \<Rightarrow> (c', Threw e)
      | (c', NeverSettled) \<Rightarrow> (c', NeverSettled))"

definition start :: "core \<Rightarrow> core \<times> completion" where
  "start c = prepare_chain modulesToPrepare c"

text \<open>
  \<open>render\<close> (lines 224 to 226): \<open>this.moduleInstances.Renderer.render\<close> throws when
  there is no \<open>Renderer\<close>, \<open>this.config.data.blocks\<close> when there is no \<open>data\<close>, the
  call when \<open>render\<close> is no function; otherwise the outcome is the renderer's.
\<close>

definition render :: "core \<Rightarrow> core \<times> completion" where
  "render c =
     (case map_of (moduleInstances c) ''Renderer'' of
        None \<Rightarrow> (c, Threw TypeError)
      | Some r \<Rightarrow>
          (case data (config c) of
             None \<Rightarrow> (c, Threw TypeError)
           | Some blocks \<Rightarrow>
               (case renderer r of
                  RenderAbsent \<Rightarrow> (c, Threw TypeError)
                | RenderFulfils \<Rightarrow>
                    (emit (RenderSettled None) (emit (RenderCalled blocks) c), Returned)
                | RenderRejects e \<Rightarrow>
                    (emit (RenderSettled (Some e)) (emit (RenderCalled blocks) c), Threw e)
                | RenderNeverSettles \<Rightarrow> (emit (RenderCalled blocks) c, NeverSettled))))"

text \<open>
  The autofocus step of the timer callback (lines 85 to 90): it reads \<open>Caret\<close> and
  \<open>BlockManager\<close> out of the registry and calls their members.
\<close>

definition focus :: "core \<Rightarrow> core \<times> completion" where
  "focus c =
     (if truthy (autofocus (config c)) then
        (case map_of (moduleInstances c) ''Caret'' of
           None \<Rightarrow> (c, Threw TypeError)
         | Some caret \<Rightarrow>
             (case map_of (moduleInstances c) ''BlockManager'' of
                None \<Rightarrow> (c, Threw TypeError)
              | Some bm \<Rightarrow>
                  if focus_ok caret \<and> focus_ok bm then (emit FocusCalled c, Returned)
                  else (c, Threw TypeError)))
      else (c, Returned))"

definition onReady_call :: "core \<Rightarrow> core" where
  "onReady_call c = c\<lparr>settled := settled c @ [Resolved]\<rparr>"

definition onFail_call :: "error \<Rightarrow> core \<Rightarrow> core" where
  "onFail_call e c = c\<lparr>settled := settled c @ [Rejected e]\<rparr>"

text \<open>
  The callback handed to \<open>setTimeout\<close>. It is an \<open>async\<close> function nobody awaits:
  what it throws reaches neither the \<open>catch\<close> of the chain nor \<open>onFail\<close>, and is
  recorded as \<open>Unhandled\<close>.
\<close>

definition onTimeout :: "core \<Rightarrow> core" where
  "onTimeout c =
     (case render c of
        (c1, Threw e) \<Rightarrow> emit (Unhandled e) c1
      | (c1, NeverSettled) \<Rightarrow> c1
      | (c1, Returned) \<Rightarrow>
          (case focus c1 of
             (c2, Threw e) \<Rightarrow> emit (Unhandled e) c2
           | (c2, NeverSettled) \<Rightarrow> c2
           | (c2, Returned) \<Rightarrow> onReady_call c2))"

definition onCatch :: "error \<Rightarrow> core \<Rightarrow> core" where
  "onCatch e c = onFail_call e (emit (Log (LogNotReady e)) c)"

definition new_core :: "string list \<Rightarrow> module_factory list \<Rightarrow> config_arg \<Rightarrow> core" where
  "new_core ids ms a =
     \<lparr>dom = ids, modules = ms, config = set_configuration a, moduleInstances = [],
      events = [], settled = []\<rparr>"

text \<open>
  The constructor of \<open>Core\<close> (lines 61 to 106), run until nothing is left to run: the
  \<open>then\<close> callback with its four steps, the \<open>catch\<close> of the chain for what they throw,
  and the timer callback, which runs after the chain has completed.
\<close>

definition Core :: "string list \<Rightarrow> module_factory list \<Rightarrow> config_arg \<Rightarrow> core" where
  "Core ids ms a =
     (case validate (new_core ids ms a) of
        Threw e \<Rightarrow> onCatch e (new_core ids ms a)
      | NeverSettled \<Rightarrow> new_core ids ms a
      | Returned \<Rightarrow>
          (case start (init (new_core ids ms a)) of
             (c, Threw e) \<Rightarrow> onCatch e c
           | (c, NeverSettled) \<Rightarrow> c
           | (c, Returned) \<Rightarrow> onTimeout (emit (Log LogReady) c)))"

section \<open>The facade\<close>

datatype field_value = ReadyPromise | ConfigValue config | DestroyFunction | UndefinedValue

datatype prototype = ModuleJS_prototype | ApiMethods "string list" | NullPrototype

text \<open>
  The object \<open>new ModuleJS(...)\<close> returns: its own fields, its prototype, the \<open>Core\<close>
  the closure \<open>destroy\<close> holds in \<open>Module\<close> (\<open>None\<close> once it is set to \<open>null\<close>),
  the state of its own \<open>isReady\<close> promise, and the delegated calls made so far.
\<close>

record facade =
  Module :: "core option"
  own_fields :: "(string \<times> field_value) list"
  proto :: prototype
  ready :: readiness
  effects :: "event list"

definition fieldsToExport :: "string list" where
  "fieldsToExport = [''configuration'']"

definition get_configuration :: "core \<Rightarrow> config" where
  "get_configuration c = config c"

definition core_field :: "core \<Rightarrow> string \<Rightarrow> field_value" where
  "core_field c field =
     (if field = ''configuration'' then ConfigValue (get_configuration c) else UndefinedValue)"

definition exportField :: "core \<Rightarrow> string \<Rightarrow> facade \<Rightarrow> facade" where
  "exportField c field f = f\<lparr>own_fields := assign field (core_field c field) (own_fields f)\<rparr>"

text \<open>
  \<open>exportAPI\<close> (the entry file, lines 75 to 107): the fields copied from the core, the
  closure \<open>destroy\<close>, the prototype swapped for \<open>API.methods\<close> (a \<open>TypeError\<close> when
  there is no \<open>API\<close> module), and \<open>delete this.exportAPI\<close>.
\<close>

definition exportAPI :: "core \<Rightarrow> facade \<Rightarrow> facade \<times> completion" where
  "exportAPI c f =
     (let f1 = fold (exportField c) fieldsToExport f;
          f2 = f1\<lparr>own_fields := assign ''destroy'' DestroyFunction (own_fields f1)\<rparr>
      in case map_of (moduleInstances c) ''API'' of
           None \<Rightarrow> (f2, Threw TypeError)
         | Some api \<Rightarrow>
             (f2\<lparr>proto := ApiMethods (methods api),
                 own_fields := AList.delete ''exportAPI'' (own_fields f2)\<rparr>, Returned))"

definition user_onReady :: "config_arg \<Rightarrow> jsval" where
  "user_onReady a =
     (case a of
        ConfigObject cfg \<Rightarrow> if isFunction (onReady cfg) then onReady cfg else Function None
      | _ \<Rightarrow> Function None)"

definition call_function :: "jsval \<Rightarrow> completion" where
  "call_function v =
     (case v of Function None \<Rightarrow> Returned | Function (Some e) \<Rightarrow> Threw e | _ \<Rightarrow> Threw TypeError)"

text \<open>The constructor of \<open>ModuleJS\<close>, with the \<open>then\<close> on the core's promise run.\<close>

definition ModuleJS :: "string list \<Rightarrow> module_factory list \<Rightarrow> config_arg \<Rightarrow> facade" where
  "ModuleJS ids ms a =
     (let c = Core ids ms a;
          f = \<lparr>Module = Some c, own_fields = [(''isReady'', ReadyPromise)],
               proto = ModuleJS_prototype, ready = Pending, effects = []\<rparr>
      in case isReady c of
           Pending \<Rightarrow> f
         | Rejected e \<Rightarrow> f\<lparr>ready := Rejected e\<rparr>
         | Resolved \<Rightarrow>
             (case exportAPI c f of
                (f', Threw e) \<Rightarrow> f'\<lparr>ready := Rejected e\<rparr>
              | (f', NeverSettled) \<Rightarrow> f'
              | (f', Returned) \<Rightarrow>
                  (case call_function (user_onReady a) of
                     Threw e \<Rightarrow> f'\<lparr>ready := Rejected e\<rparr>
                   | _ \<Rightarrow> f'\<lparr>ready := Resolved\<rparr>)))"

text \<open>
  One turn of the \<open>forEach\<close> over \<open>Object.values(Module.moduleInstances)\<close> in
  \<open>destroy\<close>: the optional hook, then \<open>listeners.removeAll()\<close>.
\<close>

definition disposeModule :: "string \<times> module_instance \<Rightarrow> core \<Rightarrow> core \<times> completion" where
  "disposeModule p c =
     (case destroy_hook (snd p) of
        Some (Some e) \<Rightarrow> (emit (Disposed (ident (snd p))) c, Threw e)
      | h \<Rightarrow>
          ((if h = None then c else emit (Disposed (ident (snd p))) c)
             \<lparr>moduleInstances :=
                AList.map_entry (fst p) (\<lambda>inst. inst\<lparr>listeners := []\<rparr>) (moduleInstances c)\<rparr>,
           Returned))"

fun dispose_loop :: "(string \<times> module_instance) list \<Rightarrow> core \<Rightarrow> core \<times> completion" where
  "dispose_loop [] c = (c, Returned)"
| "dispose_loop (p # ps) c =
     (case disposeModule p c of
        (c', Returned) \<Rightarrow> dispose_loop ps c'
      | (c', Threw e) \<Rightarrow> (c', Threw e)
      | (c', NeverSettled) \<Rightarrow> (c', NeverSettled))"

text \<open>
  The keys \<open>for (const field in this)\<close> visits: the own fields, then what the
  prototype contributes. The loop deletes the own ones.
\<close>

definition for_in_keys :: "facade \<Rightarrow> string list" where
  "for_in_keys f =
     map fst (own_fields f) @
     (case proto f of ApiMethods ms \<Rightarrow> ms | _ \<Rightarrow> [])"

definition delete_own :: "string \<Rightarrow> facade \<Rightarrow> facade" where
  "delete_own field f =
     (if map_of (own_fields f) field \<noteq> None then f\<lparr>own_fields := AList.delete field (own_fields f)\<rparr>
      else f)"

text \<open>
  The closure \<open>destroy\<close> (lines 77 to 95): the modules' disposal, \<open>Module = null\<close>, the
  own fields deleted one by one, the prototype set to \<open>null\<close>. It stops where a module's
  hook throws; called again after it completed, it throws on \<open>Module.moduleInstances\<close>.
\<close>

definition destroy :: "facade \<Rightarrow> facade \<times> completion" where
  "destroy f =
     (case Module f of
        None \<Rightarrow> (f, Threw TypeError)
      | Some c \<Rightarrow>
          (case dispose_loop (moduleInstances c) c of
             (c', Threw e) \<Rightarrow> (f\<lparr>Module := Some c'\<rparr>, Threw e)
           | (c', NeverSettled) \<Rightarrow> (f\<lparr>Module := Some c'\<rparr>, NeverSettled)
           | (c', Returned) \<Rightarrow>
               ((fold delete_own (for_in_keys f) (f\<lparr>Module := None\<rparr>))
                  \<lparr>proto := NullPrototype\<rparr>, Returned)))"

text \<open>
  Reading a property of the facade, own fields first, then the prototype, and calling
  it with no arguments. \<open>exportAPI\<close>, inherited until the prototype is swapped, throws
  on its first read of the missing argument.
\<close>

datatype property = Own field_value | ExportApiMethod | Delegated string

definition get_property :: "facade \<Rightarrow> string \<Rightarrow> property option" where
  "get_property f name =
     (case map_of (own_fields f) name of
        Some v \<Rightarrow> Some (Own v)
      | None \<Rightarrow>
          (case proto f of
             ModuleJS_prototype \<Rightarrow> if name = ''exportAPI'' then Some ExportApiMethod else None
           | ApiMethods ms \<Rightarrow> if name \<in> set ms then Some (Delegated name) else None
           | NullPrototype \<Rightarrow> None))"

definition call_method :: "facade \<Rightarrow> string \<Rightarrow> facade \<times> completion" where
  "call_method f name =
     (case get_property f name of
        None \<Rightarrow> (f, Threw TypeError)
      | Some (Own DestroyFunction) \<Rightarrow> destroy f
      | Some (Own v) \<Rightarrow> (f, Threw TypeError)
      | Some ExportApiMethod \<Rightarrow> (f, Threw TypeError)
      | Some (Delegated m) \<Rightarrow> (f\<lparr>effects := effects f @ [ApiCalled m]\<rparr>, Returned))"
section \<open>Reading a run\<close>

text \<open>
  The modules whose link of the chain was entered, and the modules whose \<open>prepare\<close>
  was invoked, in the order of the events.
\<close>

fun attempted :: "event list \<Rightarrow> string list" where
  "attempted [] = []"
| "attempted (Preparing m # es) = m # attempted es"
| "attempted (e # es) = attempted es"

fun called :: "event list \<Rightarrow> string list" where
  "called [] = []"
| "called (PrepareCalled m # es) = m # called es"
| "called (e # es) = called es"


text \<open>
  The two ways a link ends the chain: its \<open>prepare\<close> rejects with a \<open>CriticalError\<close>,
  or never settles. Every other outcome, a plain error and a missing instance or
  capability included, lets the chain go on.
\<close>

definition halts :: "core \<Rightarrow> string \<Rightarrow> bool" where
  "halts c m =
     (case map_of (moduleInstances c) m of
        None \<Rightarrow> False
      | Some inst \<Rightarrow>
          (case prepare inst of
             PrepareRejects (CriticalError msg) \<Rightarrow> True
           | PrepareNeverSettles \<Rightarrow> True
           | _ \<Rightarrow> False))"

definition can_prepare :: "core \<Rightarrow> string \<Rightarrow> bool" where
  "can_prepare c m =
     (case map_of (moduleInstances c) m of
        None \<Rightarrow> False
      | Some inst \<Rightarrow> prepare inst \<noteq> PrepareAbsent)"

text \<open>The events one link, a chain of links, and \<open>start\<close> add to those of the core.\<close>

definition link :: "core \<Rightarrow> string \<Rightarrow> event list" where
  "link c m = drop (length (events c)) (events (fst (prepareModule m c)))"

definition chain_new :: "core \<Rightarrow> string list \<Rightarrow> event list" where
  "chain_new c ms = drop (length (events c)) (events (fst (prepare_chain ms c)))"

definition started :: "core \<Rightarrow> event list" where
  "started c = drop (length (events c)) (events (fst (start c)))"

text \<open>The event one turn of \<open>constructModules\<close> leaves.\<close>

definition construct_event :: "nat \<times> module_factory \<Rightarrow> event" where
  "construct_event p =
     (case construct (snd p) of
        Inr inst \<Rightarrow> Constructed (fst p) (displayName (snd p))
      | Inl e \<Rightarrow> Log (LogConstructSkipped (displayName (snd p)) e))"

text \<open>
  The registry as names and references, a peer view computed from it, and an entry of
  the registry with its peer view assigned.
\<close>

definition refs :: "(string \<times> module_instance) list \<Rightarrow> (string \<times> nat) list" where
  "refs R = map (\<lambda>p. (fst p, ident (snd p))) R"

definition others :: "string \<Rightarrow> (string \<times> nat) list \<Rightarrow> (string \<times> nat) list" where
  "others name al = filter (\<lambda>q. fst q \<noteq> name) al"

definition with_view ::
  "(string \<times> nat) list \<Rightarrow> string list \<Rightarrow> string \<times> module_instance
    \<Rightarrow> string \<times> module_instance"
where
  "with_view al ks p =
     (if fst p \<in> set ks then (fst p, (snd p)\<lparr>state := Some (others (fst p) al)\<rparr>) else p)"
section \<open>Concrete inputs\<close>

definition conflict_config :: config where
  "conflict_config =
     \<lparr>holderId = Str ''a'', holder = Str ''b'', data = None, autofocus = Undefined,
      onReady = Undefined\<rparr>"

definition holder_config :: config where
  "holder_config = holder_only (Str ''editor-holder'')"

definition payload_config :: config where
  "payload_config = (holder_only (Str ''editor-holder''))\<lparr>data := Some [''first block'']\<rparr>"

definition plain_module :: module_instance where
  "plain_module =
     \<lparr>ident = 0, prepare = PrepareFulfils, renderer = RenderAbsent, destroy_hook = None,
      focus_ok = False, methods = [], listeners = [], state = None\<rparr>"

definition module_class :: "string \<Rightarrow> module_instance \<Rightarrow> module_factory" where
  "module_class n inst = \<lparr>displayName = n, construct = Inr inst\<rparr>"

definition editor_modules ::
  "prepare_behaviour \<Rightarrow> prepare_behaviour \<Rightarrow> render_behaviour \<Rightarrow> module_factory list"
where
  "editor_modules tools paste rendering =
     [module_class ''API''
        (plain_module\<lparr>prepare := PrepareAbsent, methods := [''save'', ''clear'']\<rparr>),
      module_class ''BlockManager''
        (plain_module\<lparr>focus_ok := True, destroy_hook := Some None\<rparr>),
      module_class ''Caret'' (plain_module\<lparr>prepare := PrepareAbsent, focus_ok := True\<rparr>),
      module_class ''Paste'' (plain_module\<lparr>prepare := paste\<rparr>),
      module_class ''Renderer''
        (plain_module\<lparr>prepare := PrepareAbsent, renderer := rendering\<rparr>),
      module_class ''Tools'' (plain_module\<lparr>prepare := tools\<rparr>),
      module_class ''UI'' (plain_module\<lparr>listeners := [''click'']\<rparr>),
      module_class ''ReadOnly'' plain_module]"


definition tools_fatal :: "module_factory list" where
  "tools_fatal =
     editor_modules (PrepareRejects (CriticalError ''tools'')) PrepareFulfils RenderFulfils"

definition same_name :: "module_factory list" where
  "same_name =
     [module_class ''Dup'' plain_module,
      module_class ''Dup'' (plain_module\<lparr>listeners := [''later'']\<rparr>)]"

definition two_modules :: "module_factory list" where
  "two_modules = [module_class ''UI'' plain_module, module_class ''API'' plain_module]"

definition healthy_modules :: "module_factory list" where
  "healthy_modules = editor_modules PrepareFulfils PrepareFulfils RenderFulfils"

definition render_fails :: "module_factory list" where
  "render_fails =
     editor_modules PrepareFulfils PrepareFulfils (RenderRejects (JsError ''render''))"

definition live_facade :: facade where
  "live_facade = ModuleJS [''editor-holder''] healthy_modules (ConfigObject payload_config)"

definition dead_facade :: facade where
  "dead_facade =
     \<lparr>Module = None, own_fields = [], proto = NullPrototype, ready = Resolved,
      effects = []\<rparr>"
section \<open>Properties\<close>

subsection \<open>What each step leaves alone, and what it adds\<close>

lemma events_emit [simp]: "events (emit e c) = events c @ [e]"
  and moduleInstances_emit [simp]: "moduleInstances (emit e c) = moduleInstances c"
  and config_emit [simp]: "config (emit e c) = config c"
  and settled_emit [simp]: "settled (emit e c) = settled c"
  by (simp_all add: emit_def)

lemma new_core_simps [simp]:
  "events (new_core ids ms a) = []"
  "settled (new_core ids ms a) = []"
  "moduleInstances (new_core ids ms a) = []"
  "modules (new_core ids ms a) = ms"
  "dom (new_core ids ms a) = ids"
  "config (new_core ids ms a) = set_configuration a"
  by (simp_all add: new_core_def)

lemma onCatch_simps [simp]:
  "events (onCatch e c) = events c @ [Log (LogNotReady e)]"
  "settled (onCatch e c) = settled c @ [Rejected e]"
  "moduleInstances (onCatch e c) = moduleInstances c"
  by (simp_all add: onCatch_def onFail_call_def)

lemma constructModule_events:
  "events (constructModule p c) = events c @ [construct_event p]"
  by (simp add: constructModule_def construct_event_def split: sum.splits)

lemma constructModule_frame:
  "config (constructModule p c) = config c"
  "settled (constructModule p c) = settled c"
  by (simp_all add: constructModule_def split: sum.splits)

lemma fold_constructModule_events:
  "events (fold constructModule xs c) = events c @ map construct_event xs"
  by (induction xs arbitrary: c) (simp_all add: constructModule_events)

lemma fold_constructModule_frame:
  "config (fold constructModule xs c) = config c
   \<and> settled (fold constructModule xs c) = settled c"
  by (induction xs arbitrary: c) (simp_all add: constructModule_frame)

lemma configureModule_frame:
  "events (configureModule n c) = events c"
  "config (configureModule n c) = config c"
  "settled (configureModule n c) = settled c"
  by (simp_all add: configureModule_def)

lemma fold_configureModule_frame:
  "events (fold configureModule ns c) = events c
   \<and> config (fold configureModule ns c) = config c
   \<and> settled (fold configureModule ns c) = settled c"
  by (induction ns arbitrary: c) (simp_all add: configureModule_frame)

lemma init_events:
  "events (init c) = events c @ map construct_event (enumerate 0 (modules c))"
  by (simp add: init_def configureModules_def constructModules_def
      fold_configureModule_frame fold_constructModule_events)

lemma init_frame: "config (init c) = config c" "settled (init c) = settled c"
  by (simp_all add: init_def configureModules_def constructModules_def
      fold_configureModule_frame fold_constructModule_frame)

lemma called_construct_events [simp]: "called (map construct_event xs) = []"
  by (induction xs) (simp_all add: construct_event_def split: sum.splits)

lemma settled_not_construct_event [simp]: "PrepareSettled m r \<notin> construct_event ` A"
  by (auto simp: construct_event_def split: sum.splits)

lemma attempted_append [simp]: "attempted (xs @ ys) = attempted xs @ attempted ys"
  by (induction xs rule: attempted.induct) simp_all

lemma called_append [simp]: "called (xs @ ys) = called xs @ called ys"
  by (induction xs rule: called.induct) simp_all

lemma prepareModule_events: "events (fst (prepareModule m c)) = events c @ link c m"
  by (simp add: link_def prepareModule_def
      split: option.splits prepare_behaviour.splits error.splits)

lemma prepareModule_frame:
  "moduleInstances (fst (prepareModule m c)) = moduleInstances c"
  "config (fst (prepareModule m c)) = config c"
  "settled (fst (prepareModule m c)) = settled c"
  by (simp_all add: prepareModule_def
      split: option.splits prepare_behaviour.splits error.splits)

lemma halts_frame [simp]: "halts (fst (prepareModule m c)) = halts c"
  by (simp add: halts_def fun_eq_iff prepareModule_frame)

lemma can_prepare_frame [simp]: "can_prepare (fst (prepareModule m c)) = can_prepare c"
  by (simp add: can_prepare_def fun_eq_iff prepareModule_frame)

text \<open>The five shapes of a link.\<close>

lemma link_cases:
  "link c m = [Preparing m, Log (LogPrepareSkipped m TypeError)]
     \<and> snd (prepareModule m c) = Returned \<and> \<not> halts c m \<and> \<not> can_prepare c m
 \<or> link c m = [Preparing m, PrepareCalled m, PrepareSettled m None]
     \<and> snd (prepareModule m c) = Returned \<and> \<not> halts c m \<and> can_prepare c m
 \<or> link c m = [Preparing m, PrepareCalled m]
     \<and> snd (prepareModule m c) = NeverSettled \<and> halts c m \<and> can_prepare c m
 \<or> (\<exists>msg. link c m = [Preparing m, PrepareCalled m,
                        PrepareSettled m (Some (CriticalError msg))]
     \<and> snd (prepareModule m c) = Threw (JsError msg) \<and> halts c m \<and> can_prepare c m)
 \<or> (\<exists>e. (\<forall>msg. e \<noteq> CriticalError msg)
     \<and> link c m = [Preparing m, PrepareCalled m, PrepareSettled m (Some e),
                   Log (LogPrepareSkipped m e)]
     \<and> snd (prepareModule m c) = Returned \<and> \<not> halts c m \<and> can_prepare c m)"
  by (simp add: link_def prepareModule_def halts_def can_prepare_def
      split: option.splits prepare_behaviour.splits error.splits)

lemma prepareModule_critical:
  "map_of (moduleInstances c) m = Some inst \<Longrightarrow>
   prepare inst = PrepareRejects (CriticalError msg) \<Longrightarrow>
   prepareModule m c =
     (emit (PrepareSettled m (Some (CriticalError msg)))
        (emit (PrepareCalled m) (emit (Preparing m) c)), Threw (JsError msg))"
  by (simp add: prepareModule_def)

lemma prepare_chain_Cons:
  "prepare_chain (m # ms) c =
     (if snd (prepareModule m c) = Returned then prepare_chain ms (fst (prepareModule m c))
      else prepareModule m c)"
  by (cases "prepareModule m c") (simp split: completion.splits)

declare prepare_chain.simps(2) [simp del]

lemma chain_events: "events (fst (prepare_chain ms c)) = events c @ chain_new c ms"
proof (induction ms arbitrary: c)
  case Nil
  show ?case by (simp add: chain_new_def)
next
  case (Cons m ms)
  show ?case
  proof (cases "snd (prepareModule m c) = Returned")
    case True
    have "events (fst (prepare_chain (m # ms) c))
            = events c @ link c m @ chain_new (fst (prepareModule m c)) ms"
      using True Cons.IH [of "fst (prepareModule m c)"]
      by (simp add: prepare_chain_Cons prepareModule_events)
    then show ?thesis by (simp add: chain_new_def)
  next
    case False
    then show ?thesis
      by (simp add: prepare_chain_Cons chain_new_def prepareModule_events)
  qed
qed

lemma chain_new_Nil [simp]: "chain_new c [] = []"
  by (simp add: chain_new_def)

lemma chain_new_Cons:
  "chain_new c (m # ms) =
     link c m @ (if snd (prepareModule m c) = Returned
                 then chain_new (fst (prepareModule m c)) ms else [])"
proof -
  have "events c @ chain_new c (m # ms) =
        events c @ link c m @ (if snd (prepareModule m c) = Returned
                 then chain_new (fst (prepareModule m c)) ms else [])"
    unfolding chain_events [symmetric]
    by (simp add: prepare_chain_Cons chain_events prepareModule_events)
  then show ?thesis by simp
qed

lemma chain_frame:
  "moduleInstances (fst (prepare_chain ms c)) = moduleInstances c
   \<and> config (fst (prepare_chain ms c)) = config c
   \<and> settled (fst (prepare_chain ms c)) = settled c"
  by (induction ms arbitrary: c) (simp_all add: prepare_chain_Cons prepareModule_frame)




lemma chain_returned:
  "(snd (prepare_chain ms c) = Returned) = (\<forall>m\<in>set ms. \<not> halts c m)"
proof (induction ms arbitrary: c)
  case Nil
  show ?case by simp
next
  case (Cons m ms)
  from link_cases [of c m] Cons.IH [of "fst (prepareModule m c)"]
  show ?case by (auto simp: prepare_chain_Cons)
qed

lemma chain_critical:
  assumes "PrepareSettled m (Some (CriticalError msg)) \<in> set (chain_new c ms)"
  shows "snd (prepare_chain ms c) = Threw (JsError msg)
         \<and> (\<exists>pre. chain_new c ms = pre @ [PrepareSettled m (Some (CriticalError msg))])"
  using assms
proof (induction ms arbitrary: c)
  case Nil
  then show ?case by simp
next
  case (Cons k ms)
  from link_cases [of c k] Cons.IH [of "fst (prepareModule k c)"] Cons.prems
  show ?case
    apply (simp add: chain_new_Cons prepare_chain_Cons split: if_splits)
    apply (elim disjE exE conjE)
    apply auto
    done
qed

lemma started_chain: "started c = chain_new c modulesToPrepare"
  by (simp add: started_def start_def chain_new_def)

lemma start_frame:
  "moduleInstances (fst (start c)) = moduleInstances c"
  "config (fst (start c)) = config c"
  "settled (fst (start c)) = settled c"
  by (simp_all add: start_def chain_frame)

lemma start_events: "events (fst (start c)) = events c @ started c"
  by (simp add: started_chain start_def chain_events)

lemma start_returned:
  "(snd (start c) = Returned) = (\<forall>m\<in>set modulesToPrepare. \<not> halts c m)"
  by (simp add: start_def chain_returned)

lemma onTimeout_no_prepare:
  "\<exists>es. events (onTimeout c) = events c @ es \<and> called es = []
        \<and> (\<forall>m r. PrepareSettled m r \<notin> set es)"
  by (simp add: onTimeout_def render_def focus_def onReady_call_def
      split: option.splits render_behaviour.splits)

lemma validate_settles: "validate c \<noteq> NeverSettled"
  by (simp add: validate_def)

lemma Core_invalid:
  "validate (new_core ids ms a) = Threw e \<Longrightarrow>
     Core ids ms a = onCatch e (new_core ids ms a)"
  by (simp add: Core_def)

lemma Core_valid:
  "validate (new_core ids ms a) = Returned \<Longrightarrow>
     Core ids ms a =
       (case snd (start (init (new_core ids ms a))) of
          Threw e \<Rightarrow> onCatch e (fst (start (init (new_core ids ms a))))
        | NeverSettled \<Rightarrow> fst (start (init (new_core ids ms a)))
        | Returned \<Rightarrow>
            onTimeout (emit (Log LogReady) (fst (start (init (new_core ids ms a))))))"
  by (cases "start (init (new_core ids ms a))") (simp add: Core_def split: completion.splits)

lemma ModuleJS_rejected:
  "isReady (Core ids ms a) = Rejected e \<Longrightarrow> ready (ModuleJS ids ms a) = Rejected e"
  by (simp add: ModuleJS_def Let_def)

subsection \<open>Validation\<close>

text \<open>
  C5. When \<open>holderId\<close> and \<open>holder\<close> are both set (both truthy, the test \<open>validate\<close>
  applies), \<open>validate\<close> throws the configuration error, the pipeline stops before
  \<open>init\<close>: the registry stays empty, the only event of the whole run is the error
  log (no constructor ran), and both readiness promises are rejected with that error.
\<close>

theorem conflicting_holders_abort:
  assumes "truthy (holderId cfg)" and "truthy (holder cfg)"
  shows "validate (new_core ids ms (ConfigObject cfg)) = Threw HolderConflict
    \<and> moduleInstances (Core ids ms (ConfigObject cfg)) = []
    \<and> events (Core ids ms (ConfigObject cfg)) = [Log (LogNotReady HolderConflict)]
    \<and> isReady (Core ids ms (ConfigObject cfg)) = Rejected HolderConflict
    \<and> ready (ModuleJS ids ms (ConfigObject cfg)) = Rejected HolderConflict"
proof -
  have v: "validate (new_core ids ms (ConfigObject cfg)) = Threw HolderConflict"
    using assms by (simp add: validate_def set_configuration_def)
  have m: "moduleInstances (Core ids ms (ConfigObject cfg)) = []"
    and e: "events (Core ids ms (ConfigObject cfg)) = [Log (LogNotReady HolderConflict)]"
    and r: "isReady (Core ids ms (ConfigObject cfg)) = Rejected HolderConflict"
    by (simp_all add: Core_invalid [OF v] isReady_def)
  from r have "ready (ModuleJS ids ms (ConfigObject cfg)) = Rejected HolderConflict"
    by (rule ModuleJS_rejected)
  with v m e r show ?thesis by simp
qed

theorem conflicting_holders_abort_witness:
  "truthy (holderId conflict_config) \<and> truthy (holder conflict_config)
   \<and> events (Core [''a'', ''b''] [] (ConfigObject conflict_config))
       = [Log (LogNotReady HolderConflict)]"
  using conflicting_holders_abort [of conflict_config "[''a'', ''b'']" "[]"]
  by (simp add: conflict_config_def)

text \<open>
  C10. Constructing with no configuration is accepted: the setter wraps \<open>undefined\<close>
  as an object whose \<open>holder\<close> is \<open>undefined\<close>, \<open>validate\<close> returns without throwing,
  and the run goes on to \<open>constructModules\<close>: its events open with those of
  \<open>constructModules\<close>, and every class whose constructor returns is constructed.
\<close>

theorem zero_configuration_accepted:
  "set_configuration NoConfig = holder_only Undefined
   \<and> holder (config (new_core ids ms NoConfig)) = Undefined
   \<and> validate (new_core ids ms NoConfig) = Returned
   \<and> (\<exists>rest. events (Core ids ms NoConfig)
               = events (constructModules (new_core ids ms NoConfig)) @ rest)
   \<and> (\<forall>i inst. i < length ms \<longrightarrow> construct (ms ! i) = Inr inst \<longrightarrow>
         Constructed i (displayName (ms ! i)) \<in> set (events (Core ids ms NoConfig)))"
proof -
  let ?c0 = "new_core ids ms NoConfig"
  have s: "set_configuration NoConfig = holder_only Undefined"
    by (simp add: set_configuration_def)
  have h: "holder (config ?c0) = Undefined"
    by (simp add: s holder_only_def)
  have v: "validate ?c0 = Returned"
    by (simp add: validate_def s holder_only_def dom_get_def)
  have ce: "events (constructModules ?c0) = map construct_event (enumerate 0 ms)"
    by (simp add: constructModules_def fold_constructModule_events)
  obtain es where "events (onTimeout (emit (Log LogReady) (fst (start (init ?c0)))))
        = events (emit (Log LogReady) (fst (start (init ?c0)))) @ es"
    using onTimeout_no_prepare by blast
  then have r: "\<exists>rest. events (Core ids ms NoConfig)
                  = map construct_event (enumerate 0 ms) @ rest"
    by (cases "snd (start (init ?c0))")
       (simp_all add: Core_valid [OF v] start_events init_events)
  have "Constructed i (displayName (ms ! i)) \<in> set (events (Core ids ms NoConfig))"
    if "i < length ms" and "construct (ms ! i) = Inr inst" for i inst
  proof -
    from that have "(i, ms ! i) \<in> set (enumerate 0 ms)"
      by (simp add: in_set_enumerate_eq)
    moreover from that
    have "construct_event (i, ms ! i) = Constructed i (displayName (ms ! i))"
      by (simp add: construct_event_def)
    ultimately
    have "Constructed i (displayName (ms ! i)) \<in> set (map construct_event (enumerate 0 ms))"
      by force
    with r show ?thesis by auto
  qed
  with s h v r ce show ?thesis by simp
qed

theorem zero_configuration_accepted_witness:
  "0 < length [module_class ''UI'' plain_module]
   \<and> construct ([module_class ''UI'' plain_module] ! 0) = Inr plain_module
   \<and> Constructed 0 ''UI'' \<in> set (events (Core [] [module_class ''UI'' plain_module] NoConfig))"
proof -
  have l: "0 < length [module_class ''UI'' plain_module]" by simp
  have c: "construct ([module_class ''UI'' plain_module] ! 0) = Inr plain_module"
    by (simp add: module_class_def)
  have n: "displayName ([module_class ''UI'' plain_module] ! 0) = ''UI''"
    by (simp add: module_class_def)
  from zero_configuration_accepted [of "[]" "[module_class ''UI'' plain_module]"] l c
  have "Constructed 0 (displayName ([module_class ''UI'' plain_module] ! 0))
          \<in> set (events (Core [] [module_class ''UI'' plain_module] NoConfig))"
    by blast
  with l c n show ?thesis by simp
qed

subsection \<open>The start sequence\<close>






lemma critical_in_run:
  assumes x: "PrepareSettled m (Some (CriticalError msg)) \<in> set (events (Core ids ms a))"
  shows "isReady (Core ids ms a) = Rejected (JsError msg)
     \<and> (\<exists>pre. events (Core ids ms a)
            = pre @ [PrepareSettled m (Some (CriticalError msg)),
                     Log (LogNotReady (JsError msg))])"
proof -
  let ?X = "PrepareSettled m (Some (CriticalError msg))"
  let ?c0 = "new_core ids ms a"
  let ?c1 = "init ?c0"
  have v: "validate ?c0 = Returned"
  proof (cases "validate ?c0")
    case (Threw e)
    with x show ?thesis by (simp add: Core_invalid)
  next
    case NeverSettled
    then show ?thesis by (simp add: validate_settles)
  qed simp
  have s: "?X \<in> set (started ?c1)"
  proof (cases "snd (start ?c1)")
    case Returned
    obtain es where "events (onTimeout (emit (Log LogReady) (fst (start ?c1))))
        = events (emit (Log LogReady) (fst (start ?c1))) @ es"
        "\<forall>m r. PrepareSettled m r \<notin> set es"
      using onTimeout_no_prepare by blast
    with x Returned show ?thesis
      by (simp add: Core_valid [OF v] start_events init_events)
  next
    case (Threw e)
    with x show ?thesis by (simp add: Core_valid [OF v] start_events init_events)
  next
    case NeverSettled
    with x show ?thesis by (simp add: Core_valid [OF v] start_events init_events)
  qed
  from chain_critical [of m msg ?c1 modulesToPrepare] s
  obtain pre where t: "snd (start ?c1) = Threw (JsError msg)" and p: "started ?c1 = pre @ [?X]"
    by (auto simp: started_chain start_def)
  have e: "events (Core ids ms a) = (events ?c1 @ pre) @ [?X, Log (LogNotReady (JsError msg))]"
    by (simp add: Core_valid [OF v] t start_events p)
  have "settled (Core ids ms a) = [Rejected (JsError msg)]"
    by (simp add: Core_valid [OF v] t start_frame init_frame)
  then have "isReady (Core ids ms a) = Rejected (JsError msg)"
    by (simp add: isReady_def)
  with e show ?thesis by blast
qed

lemma tools_critical:
  assumes v: "validate (new_core ids ms a) = Returned"
    and t: "map_of (moduleInstances (init (new_core ids ms a))) ''Tools'' = Some inst"
    and p: "prepare inst = PrepareRejects (CriticalError msg)"
  shows "isReady (Core ids ms a) = Rejected (JsError msg)
     \<and> called (events (Core ids ms a)) = [''Tools'']"
proof -
  let ?c1 = "init (new_core ids ms a)"
  have s: "start ?c1 =
     (emit (PrepareSettled ''Tools'' (Some (CriticalError msg)))
        (emit (PrepareCalled ''Tools'') (emit (Preparing ''Tools'') ?c1)), Threw (JsError msg))"
    by (simp add: start_def modulesToPrepare_def prepare_chain_Cons
        prepareModule_critical [OF t p])
  have c: "Core ids ms a =
     onCatch (JsError msg) (emit (PrepareSettled ''Tools'' (Some (CriticalError msg)))
        (emit (PrepareCalled ''Tools'') (emit (Preparing ''Tools'') ?c1)))"
    by (simp add: Core_valid [OF v] s)
  have "settled (Core ids ms a) = [Rejected (JsError msg)]"
    by (simp add: c init_frame)
  moreover have "called (events (Core ids ms a)) = [''Tools'']"
    by (simp add: c init_events)
  ultimately show ?thesis by (simp add: isReady_def)
qed

text \<open>
  C3. Whenever the \<open>prepare\<close> of a module settles with a \<open>CriticalError\<close>, the run
  ends there: the only event after that settlement is the error log of the \<open>catch\<close>
  (no later \<open>prepare\<close> is invoked, no later link is entered), and both readiness
  promises are rejected, with the \<open>Error\<close> that \<open>start\<close> makes from the message. In
  particular, when the configuration is valid and the instance registered as
  \<open>Tools\<close> throws one, \<open>Tools\<close> is the only module whose \<open>prepare\<close> is invoked:
  that of \<open>BlockManager\<close> never is.
\<close>

theorem critical_error_stops_startup:
  "(PrepareSettled m (Some (CriticalError msg)) \<in> set (events (Core ids ms a)) \<longrightarrow>
      isReady (Core ids ms a) = Rejected (JsError msg)
      \<and> ready (ModuleJS ids ms a) = Rejected (JsError msg)
      \<and> (\<exists>pre. events (Core ids ms a)
              = pre @ [PrepareSettled m (Some (CriticalError msg)),
                       Log (LogNotReady (JsError msg))]))
   \<and> (validate (new_core ids ms a) = Returned \<longrightarrow>
      map_of (moduleInstances (init (new_core ids ms a))) ''Tools'' = Some inst \<longrightarrow>
      prepare inst = PrepareRejects (CriticalError msg) \<longrightarrow>
        isReady (Core ids ms a) = Rejected (JsError msg)
        \<and> called (events (Core ids ms a)) = [''Tools'']
        \<and> ''BlockManager'' \<notin> set (called (events (Core ids ms a))))"
proof (intro conjI impI)
  assume x: "PrepareSettled m (Some (CriticalError msg)) \<in> set (events (Core ids ms a))"
  from critical_in_run [OF x]
  show "isReady (Core ids ms a) = Rejected (JsError msg)"
    and "\<exists>pre. events (Core ids ms a)
              = pre @ [PrepareSettled m (Some (CriticalError msg)),
                       Log (LogNotReady (JsError msg))]"
    by blast+
  then show "ready (ModuleJS ids ms a) = Rejected (JsError msg)"
    by (simp add: ModuleJS_rejected)
next
  assume v: "validate (new_core ids ms a) = Returned"
    and t: "map_of (moduleInstances (init (new_core ids ms a))) ''Tools'' = Some inst"
    and p: "prepare inst = PrepareRejects (CriticalError msg)"
  from tools_critical [OF v t p]
  show "isReady (Core ids ms a) = Rejected (JsError msg)"
    and "called (events (Core ids ms a)) = [''Tools'']"
    and "''BlockManager'' \<notin> set (called (events (Core ids ms a)))"
    by simp_all
qed

theorem critical_error_stops_startup_witness:
  "PrepareSettled ''Tools'' (Some (CriticalError ''tools''))
     \<in> set (events (Core [''editor-holder''] tools_fatal (ConfigObject payload_config)))
   \<and> validate (new_core [''editor-holder''] tools_fatal (ConfigObject payload_config)) = Returned
   \<and> map_option prepare
        (map_of (moduleInstances
           (init (new_core [''editor-holder''] tools_fatal (ConfigObject payload_config))))
           ''Tools'')
       = Some (PrepareRejects (CriticalError ''tools''))
   \<and> isReady (Core [''editor-holder''] tools_fatal (ConfigObject payload_config))
       = Rejected (JsError ''tools'')
   \<and> ''BlockManager''
       \<notin> set (called (events (Core [''editor-holder''] tools_fatal (ConfigObject payload_config))))"
proof -
  let ?ids = "[''editor-holder'']" and ?a = "ConfigObject payload_config"
  have x: "PrepareSettled ''Tools'' (Some (CriticalError ''tools''))
     \<in> set (events (Core ?ids tools_fatal ?a))"
    by code_simp
  have v: "validate (new_core ?ids tools_fatal ?a) = Returned"
    by code_simp
  have t: "map_option prepare
        (map_of (moduleInstances (init (new_core ?ids tools_fatal ?a))) ''Tools'')
       = Some (PrepareRejects (CriticalError ''tools''))"
    by code_simp
  then obtain inst where
    i: "map_of (moduleInstances (init (new_core ?ids tools_fatal ?a))) ''Tools'' = Some inst"
    and p: "prepare inst = PrepareRejects (CriticalError ''tools'')"
    by auto
  from critical_error_stops_startup [of "''Tools''" "''tools''" ?ids tools_fatal ?a inst] x v i p
  have "isReady (Core ?ids tools_fatal ?a) = Rejected (JsError ''tools'')"
    and "''BlockManager'' \<notin> set (called (events (Core ?ids tools_fatal ?a)))"
    by blast+
  with x v t show ?thesis by blast
qed

subsection \<open>The registry and the peer views\<close>

lemma registry_constructModule:
  "moduleInstances (constructModule p c) =
     (case construct (snd p) of
        Inr inst \<Rightarrow>
          assign (displayName (snd p)) (inst\<lparr>ident := fst p, state := None\<rparr>) (moduleInstances c)
      | Inl e \<Rightarrow> moduleInstances c)"
  by (simp add: constructModule_def split: sum.splits)

lemma map_of_assign: "map_of (assign k v al) = (map_of al)(k \<mapsto> v)"
  by (simp add: assign_def update_conv')

lemma distinct_assign: "distinct (map fst al) \<Longrightarrow> distinct (map fst (assign k v al))"
  by (simp add: assign_def distinct_update)

lemma assign_fresh: "k \<notin> fst ` set al \<Longrightarrow> assign k v al = al @ [(k, v)]"
  unfolding assign_def by (induction al) auto

lemma distinct_fold_constructModule:
  "distinct (map fst (moduleInstances c)) \<Longrightarrow>
   distinct (map fst (moduleInstances (fold constructModule xs c)))"
  by (induction xs arbitrary: c)
     (simp_all add: registry_constructModule distinct_assign split: sum.splits)

lemma last_built:
  assumes "j < length ms" and "construct (ms ! j) = Inr inst"
    and "\<forall>k. j < k \<longrightarrow> k < length ms \<longrightarrow> displayName (ms ! k) = displayName (ms ! j)
           \<longrightarrow> isl (construct (ms ! k))"
  shows "map_of (moduleInstances (fold constructModule (enumerate 0 ms) c)) (displayName (ms ! j))
           = Some (inst\<lparr>ident := j, state := None\<rparr>)"
  using assms
proof (induction ms rule: rev_induct)
  case Nil
  then show ?case by simp
next
  case (snoc f ms)
  let ?c = "fold constructModule (enumerate 0 ms) c"
  have r: "moduleInstances (fold constructModule (enumerate 0 (ms @ [f])) c)
             = moduleInstances (constructModule (length ms, f) ?c)"
    by (simp add: enumerate_append_eq)
  show ?case
  proof (cases "j = length ms")
    case True
    with snoc.prems show ?thesis
      by (simp add: r registry_constructModule map_of_assign)
  next
    case False
    with snoc.prems have j: "j < length ms" by simp
    with snoc.prems have c: "construct (ms ! j) = Inr inst" by (simp add: nth_append)
    have l: "\<forall>k. j < k \<longrightarrow> k < length ms \<longrightarrow> displayName (ms ! k) = displayName (ms ! j)
           \<longrightarrow> isl (construct (ms ! k))"
    proof (intro allI impI)
      fix k assume "j < k" "k < length ms" "displayName (ms ! k) = displayName (ms ! j)"
      with snoc.prems(3) [rule_format, of k] j show "isl (construct (ms ! k))"
        by (simp add: nth_append)
    qed
    have f: "displayName f = displayName (ms ! j) \<longrightarrow> isl (construct f)"
      using snoc.prems(3) [rule_format, of "length ms"] j by (simp add: nth_append)
    from snoc.IH [OF j c l] f j show ?thesis
      by (auto simp: r registry_constructModule map_of_assign nth_append split: sum.splits)
  qed
qed

lemma construct_log:
  assumes "Log entry \<in> set (map construct_event (enumerate 0 ms))"
  shows "\<exists>i e. i < length ms \<and> construct (ms ! i) = Inl e
           \<and> entry = LogConstructSkipped (displayName (ms ! i)) e"
proof -
  from assms obtain i where i: "i < length ms" and e: "Log entry = construct_event (i, ms ! i)"
    by (auto simp: in_set_enumerate_eq)
  then show ?thesis
    by (cases "construct (ms ! i)") (auto simp: construct_event_def)
qed

text \<open>
  C8, as the code has it. For every list of module classes: under each name the
  registry holds the instance built by the last class of that name whose constructor
  returned (so of two classes with one name the later one replaces the earlier one,
  whole, in the earlier one's place); the registry has one entry per name; and the only
  warnings \<open>constructModules\<close> logs are those for constructors that threw. No warning
  is logged for an overwritten name.
\<close>

theorem last_registered_wins:
  "(\<forall>j inst. j < length ms \<longrightarrow> construct (ms ! j) = Inr inst \<longrightarrow>
       (\<forall>k. j < k \<longrightarrow> k < length ms \<longrightarrow> displayName (ms ! k) = displayName (ms ! j)
           \<longrightarrow> isl (construct (ms ! k))) \<longrightarrow>
       map_of (moduleInstances (constructModules (new_core ids ms a))) (displayName (ms ! j))
         = Some (inst\<lparr>ident := j, state := None\<rparr>))
   \<and> distinct (map fst (moduleInstances (constructModules (new_core ids ms a))))
   \<and> (\<forall>entry. Log entry \<in> set (events (constructModules (new_core ids ms a))) \<longrightarrow>
         (\<exists>i e. i < length ms \<and> construct (ms ! i) = Inl e
            \<and> entry = LogConstructSkipped (displayName (ms ! i)) e))"
proof (intro conjI allI impI)
  fix j inst
  assume "j < length ms" "construct (ms ! j) = Inr inst"
    "\<forall>k. j < k \<longrightarrow> k < length ms \<longrightarrow> displayName (ms ! k) = displayName (ms ! j)
           \<longrightarrow> isl (construct (ms ! k))"
  then show "map_of (moduleInstances (constructModules (new_core ids ms a))) (displayName (ms ! j))
         = Some (inst\<lparr>ident := j, state := None\<rparr>)"
    by (simp add: constructModules_def last_built)
next
  show "distinct (map fst (moduleInstances (constructModules (new_core ids ms a))))"
    by (simp add: constructModules_def distinct_fold_constructModule)
next
  fix entry
  assume "Log entry \<in> set (events (constructModules (new_core ids ms a)))"
  then have "Log entry \<in> set (map construct_event (enumerate 0 ms))"
    by (simp add: constructModules_def fold_constructModule_events)
  then show "\<exists>i e. i < length ms \<and> construct (ms ! i) = Inl e
            \<and> entry = LogConstructSkipped (displayName (ms ! i)) e"
    by (rule construct_log)
qed

text \<open>
  The claim as stated asks for a warning when a name is overwritten. Two classes named
  \<open>Dup\<close>, both constructed: the later instance is the registry's only entry, and the
  events hold the two constructions and no log entry.
\<close>

theorem overwrite_not_logged_counterexample:
  "events (constructModules (new_core [] same_name NoConfig))
     = [Constructed 0 ''Dup'', Constructed 1 ''Dup'']
   \<and> moduleInstances (constructModules (new_core [] same_name NoConfig))
     = [(''Dup'', plain_module\<lparr>listeners := [''later''], ident := 1\<rparr>)]"
  by code_simp

theorem last_registered_wins_witness:
  "1 < length same_name
   \<and> construct (same_name ! 1) = Inr (plain_module\<lparr>listeners := [''later'']\<rparr>)
   \<and> displayName (same_name ! 0) = displayName (same_name ! 1)
   \<and> map_of (moduleInstances (constructModules (new_core [] same_name NoConfig))) ''Dup''
       = Some (plain_module\<lparr>listeners := [''later''], ident := 1, state := None\<rparr>)"
proof -
  have l: "1 < length same_name" by (simp add: same_name_def)
  have c: "construct (same_name ! 1) = Inr (plain_module\<lparr>listeners := [''later'']\<rparr>)"
    by (simp add: same_name_def module_class_def)
  have n: "displayName (same_name ! 1) = ''Dup''" "displayName (same_name ! 0) = ''Dup''"
    by (simp_all add: same_name_def module_class_def)
  have k: "\<forall>k. 1 < k \<longrightarrow> k < length same_name
             \<longrightarrow> displayName (same_name ! k) = displayName (same_name ! 1)
             \<longrightarrow> isl (construct (same_name ! k))"
    by (simp add: same_name_def)
  from last_registered_wins [of same_name "[]" NoConfig] l c k
  have "map_of (moduleInstances (constructModules (new_core [] same_name NoConfig)))
          (displayName (same_name ! 1))
        = Some (plain_module\<lparr>listeners := [''later''], ident := 1, state := None\<rparr>)"
    by blast
  with l c n show ?thesis by simp
qed

lemma refs_Cons [simp]: "refs (p # R) = (fst p, ident (snd p)) # refs R" and refs_Nil [simp]: "refs [] = []"
  by (simp_all add: refs_def)

lemma fst_refs [simp]: "map fst (refs R) = map fst R"
  by (simp add: refs_def)

lemma map_of_refs: "map_of (refs R) n = map_option ident (map_of R n)"
  by (induction R) auto

lemma diff_loop_eq:
  "distinct (map fst R) \<Longrightarrow> fst ` set acc \<inter> fst ` set R = {} \<Longrightarrow>
   diff_loop R name acc = acc @ others name (refs R)"
proof (induction R arbitrary: acc)
  case Nil
  then show ?case by (simp add: others_def)
next
  case (Cons p R)
  obtain n i where p: "p = (n, i)" by (cases p)
  show ?case
  proof (cases "n = name")
    case True
    with Cons.prems Cons.IH [of acc] p show ?thesis
      by (auto simp: others_def)
  next
    case False
    from Cons.prems p have fresh: "n \<notin> fst ` set acc" by auto
    from Cons.prems p have "fst ` set (acc @ [(n, ident i)]) \<inter> fst ` set R = {}"
      by auto
    with Cons.prems Cons.IH [of "acc @ [(n, ident i)]"] p False fresh show ?thesis
      by (simp add: others_def assign_fresh)
  qed
qed

lemma getModulesDiff_eq:
  "distinct (map fst (moduleInstances c)) \<Longrightarrow>
   getModulesDiff c name = others name (refs (moduleInstances c))"
  by (simp add: getModulesDiff_def diff_loop_eq)

lemma map_entry_as_map:
  "distinct (map fst R) \<Longrightarrow>
   AList.map_entry k f R = map (\<lambda>p. if fst p = k then (fst p, f (snd p)) else p) R"
proof (induction R)
  case Nil
  show ?case by simp
next
  case (Cons p R)
  obtain n i where p: "p = (n, i)" by (cases p)
  show ?case
  proof (cases "n = k")
    case True
    with Cons.prems p have "k \<notin> fst ` set R" by auto
    then have "map (\<lambda>p. if fst p = k then (fst p, f (snd p)) else p) R = R"
      by (induction R) auto
    with True p show ?thesis by simp
  next
    case False
    with Cons p show ?thesis by simp
  qed
qed

lemma fst_with_view [simp]: "fst (with_view al ks p) = fst p"
  by (simp add: with_view_def)

lemma ident_with_view [simp]: "ident (snd (with_view al ks p)) = ident (snd p)"
  by (simp add: with_view_def)

lemma refs_with_view [simp]: "refs (map (with_view al ks) R) = refs R"
  by (simp add: refs_def)

lemma registry_configureModule:
  assumes d: "distinct (map fst (moduleInstances c))"
  shows "moduleInstances (configureModule k c)
           = map (with_view (refs (moduleInstances c)) [k]) (moduleInstances c)"
  by (simp add: configureModule_def getModulesDiff_eq [OF d] map_entry_as_map [OF d]
      with_view_def)

lemma fold_configureModule:
  "distinct (map fst (moduleInstances c)) \<Longrightarrow>
   moduleInstances (fold configureModule ks c)
     = map (with_view (refs (moduleInstances c)) ks) (moduleInstances c)"
proof (induction ks arbitrary: c)
  case Nil
  show ?case by (simp add: with_view_def)
next
  case (Cons k ks)
  let ?R = "moduleInstances c"
  have r: "moduleInstances (configureModule k c) = map (with_view (refs ?R) [k]) ?R"
    using Cons.prems by (rule registry_configureModule)
  have d: "distinct (map fst (moduleInstances (configureModule k c)))"
    using Cons.prems by (simp add: r comp_def)
  have "moduleInstances (fold configureModule (k # ks) c)
          = map (with_view (refs ?R) ks) (map (with_view (refs ?R) [k]) ?R)"
    using Cons.IH [OF d] by (simp add: r)
  also have "\<dots> = map (with_view (refs ?R) (k # ks)) ?R"
    by (simp add: with_view_def)
  finally show ?case .
qed

lemma registry_init:
  "moduleInstances (init (new_core ids ms a))
     = map (\<lambda>p. (fst p, (snd p)\<lparr>state :=
                   Some (others (fst p) (refs (moduleInstances (constructModules (new_core ids ms a)))))\<rparr>))
         (moduleInstances (constructModules (new_core ids ms a)))"
proof -
  let ?c = "constructModules (new_core ids ms a)"
  have d: "distinct (map fst (moduleInstances ?c))"
    by (simp add: constructModules_def distinct_fold_constructModule)
  have "moduleInstances (init (new_core ids ms a))
          = map (with_view (refs (moduleInstances ?c)) (map fst (moduleInstances ?c)))
              (moduleInstances ?c)"
    by (simp add: init_def configureModules_def fold_configureModule [OF d])
  also have "\<dots> = map (\<lambda>p. (fst p, (snd p)\<lparr>state :=
                   Some (others (fst p) (refs (moduleInstances ?c)))\<rparr>)) (moduleInstances ?c)"
    by (rule map_cong) (simp_all add: with_view_def)
  finally show ?thesis .
qed

lemma map_of_others:
  "map_of (others name al) n = (if n = name then None else map_of al n)"
  unfolding others_def by (induction al) auto

lemma distinct_others: "distinct (map fst al) \<Longrightarrow> distinct (map fst (others name al))"
  unfolding others_def by (induction al) auto

text \<open>
  C6. For module classes none of which is named \<open>__proto__\<close> (the one name a
  JavaScript object does not store as a key of its own: assigning it sets the object's
  prototype, and the registry as an association list does not describe that): after
  \<open>init\<close> the registry has one entry per name, and for every entry \<open>X\<close> of it the
  \<open>state\<close> of the instance is assigned, lists no name twice, has no entry for \<open>X\<close>,
  and maps every other name to what the registry holds under that name: the reference
  of that module's instance, or nothing when no such module survived. The instance a
  class built survives under the class's name unless a later class of the same name was
  constructed too.
\<close>

theorem peer_views_exclude_owner:
  assumes "''__proto__'' \<notin> displayName ` set ms"
  shows "distinct (map fst (moduleInstances (init (new_core ids ms a))))
   \<and> (\<forall>X inst. (X, inst) \<in> set (moduleInstances (init (new_core ids ms a))) \<longrightarrow>
        (\<exists>view. state inst = Some view
           \<and> distinct (map fst view)
           \<and> map_of view X = None
           \<and> (\<forall>n. n \<noteq> X \<longrightarrow>
                 map_of view n
                   = map_option ident (map_of (moduleInstances (init (new_core ids ms a))) n))))
   \<and> (\<forall>j inst. j < length ms \<longrightarrow> construct (ms ! j) = Inr inst \<longrightarrow>
        (\<forall>k. j < k \<longrightarrow> k < length ms \<longrightarrow> displayName (ms ! k) = displayName (ms ! j)
           \<longrightarrow> isl (construct (ms ! k))) \<longrightarrow>
        map_option ident (map_of (moduleInstances (init (new_core ids ms a))) (displayName (ms ! j)))
          = Some j)"
proof -
  let ?B = "moduleInstances (constructModules (new_core ids ms a))"
  let ?R = "moduleInstances (init (new_core ids ms a))"
  have d0: "distinct (map fst ?B)"
    by (simp add: constructModules_def distinct_fold_constructModule)
  have keys: "map fst ?R = map fst ?B"
    by (simp add: registry_init comp_def)
  have rf: "refs ?R = refs ?B"
    by (simp add: registry_init refs_def comp_def)
  have 1: "distinct (map fst ?R)"
    using d0 by (simp add: keys)
  have 2: "\<exists>view. state inst = Some view \<and> distinct (map fst view) \<and> map_of view X = None
           \<and> (\<forall>n. n \<noteq> X \<longrightarrow> map_of view n = map_option ident (map_of ?R n))"
    if "(X, inst) \<in> set ?R" for X inst
  proof -
    from that have "state inst = Some (others X (refs ?B))"
      by (auto simp: registry_init)
    moreover have "distinct (map fst (others X (refs ?B)))"
      using d0 by (simp add: distinct_others)
    moreover have "map_of (others X (refs ?B)) X = None"
      by (simp add: map_of_others)
    moreover have "\<forall>n. n \<noteq> X \<longrightarrow>
        map_of (others X (refs ?B)) n = map_option ident (map_of ?R n)"
      by (simp add: map_of_others rf [symmetric] map_of_refs)
    ultimately show ?thesis by blast
  qed
  have 3: "map_option ident (map_of ?R (displayName (ms ! j))) = Some j"
    if "j < length ms" "construct (ms ! j) = Inr inst"
      "\<forall>k. j < k \<longrightarrow> k < length ms \<longrightarrow> displayName (ms ! k) = displayName (ms ! j)
           \<longrightarrow> isl (construct (ms ! k))" for j inst
  proof -
    from that have "map_of ?B (displayName (ms ! j)) = Some (inst\<lparr>ident := j, state := None\<rparr>)"
      by (simp add: constructModules_def last_built)
    then have "map_of (refs ?B) (displayName (ms ! j)) = Some j"
      by (simp add: map_of_refs)
    then show ?thesis
      by (simp add: rf [symmetric] map_of_refs)
  qed
  from 1 2 3 show ?thesis by blast
qed

theorem peer_views_exclude_owner_witness:
  "''__proto__'' \<notin> displayName ` set two_modules
   \<and> (''UI'', plain_module\<lparr>ident := 0, state := Some [(''API'', 1)]\<rparr>)
      \<in> set (moduleInstances (init (new_core [] two_modules NoConfig)))
   \<and> map_of [(''API'', 1 :: nat)] ''UI'' = None
   \<and> map_option ident (map_of (moduleInstances (init (new_core [] two_modules NoConfig))) ''API'')
       = Some 1
   \<and> 0 < length two_modules \<and> construct (two_modules ! 0) = Inr plain_module
   \<and> map_option ident
        (map_of (moduleInstances (init (new_core [] two_modules NoConfig)))
           (displayName (two_modules ! 0)))
       = Some 0"
proof -
  let ?R = "moduleInstances (init (new_core [] two_modules NoConfig))"
  let ?ui = "plain_module\<lparr>ident := 0, state := Some [(''API'', 1)]\<rparr>"
  have p: "''__proto__'' \<notin> displayName ` set two_modules"
    by (simp add: two_modules_def module_class_def)
  have m: "(''UI'', ?ui) \<in> set ?R" by code_simp
  from peer_views_exclude_owner [OF p, of "[]" NoConfig] m
  obtain view where v: "state ?ui = Some view" "map_of view ''UI'' = None"
    "\<forall>n. n \<noteq> ''UI'' \<longrightarrow> map_of view n = map_option ident (map_of ?R n)"
    by blast
  from v(1) have view: "view = [(''API'', 1)]" by simp
  from v(3) have "map_of view ''API'' = map_option ident (map_of ?R ''API'')" by simp
  then have a: "map_option ident (map_of ?R ''API'') = Some 1" by (simp add: view)
  have l: "0 < length two_modules" by (simp add: two_modules_def)
  have c: "construct (two_modules ! 0) = Inr plain_module"
    by (simp add: two_modules_def module_class_def)
  have k: "\<forall>k. 0 < k \<longrightarrow> k < length two_modules
             \<longrightarrow> displayName (two_modules ! k) = displayName (two_modules ! 0)
             \<longrightarrow> isl (construct (two_modules ! k))"
    by (auto simp: two_modules_def module_class_def less_Suc_eq)
  from peer_views_exclude_owner [OF p, of "[]" NoConfig] l c k
  have j: "map_option ident (map_of ?R (displayName (two_modules ! 0))) = Some 0"
    by blast
  from p m v(2) a l c j show ?thesis by (simp add: view)
qed

subsection \<open>The facade and its teardown\<close>

lemma delete_as_filter: "AList.delete k al = filter (\<lambda>p. fst p \<noteq> k) al"
  by (induction al) auto

lemma delete_own_fields:
  "own_fields (delete_own k f) = filter (\<lambda>p. fst p \<noteq> k) (own_fields f)"
proof (cases "map_of (own_fields f) k")
  case None
  then have "k \<notin> fst ` set (own_fields f)" by (simp add: map_of_eq_None_iff)
  then have "filter (\<lambda>p. fst p \<noteq> k) (own_fields f) = own_fields f"
    by (auto simp: filter_id_conv)
  with None show ?thesis by (simp add: delete_own_def)
next
  case (Some v)
  then show ?thesis by (simp add: delete_own_def delete_as_filter)
qed

lemma delete_own_frame:
  "proto (delete_own k f) = proto f" "Module (delete_own k f) = Module f"
  "ready (delete_own k f) = ready f" "effects (delete_own k f) = effects f"
  by (simp_all add: delete_own_def)

lemma fold_delete_own:
  "own_fields (fold delete_own ks f) = filter (\<lambda>p. fst p \<notin> set ks) (own_fields f)
   \<and> Module (fold delete_own ks f) = Module f"
  by (induction ks arbitrary: f) (auto simp: delete_own_fields delete_own_frame)

lemma destroy_returned:
  assumes "destroy f = (f', Returned)"
  shows "own_fields f' = [] \<and> proto f' = NullPrototype \<and> Module f' = None"
proof -
  from assms obtain c c' where c: "Module f = Some c"
    and f': "f' = (fold delete_own (for_in_keys f) (f\<lparr>Module := None\<rparr>))\<lparr>proto := NullPrototype\<rparr>"
    by (auto simp: destroy_def split: option.splits prod.splits completion.splits)
  have "own_fields f' = filter (\<lambda>p. fst p \<notin> set (for_in_keys f)) (own_fields f)"
    by (simp add: f' fold_delete_own)
  also have "\<dots> = []"
    by (auto simp: for_in_keys_def filter_empty_conv)
  finally have "own_fields f' = []" .
  moreover have "proto f' = NullPrototype" by (simp add: f')
  moreover have "Module f' = None" by (simp add: f' fold_delete_own)
  ultimately show ?thesis by simp
qed

lemma inert:
  assumes "own_fields f = []" and "proto f = NullPrototype"
  shows "get_property f name = None" and "call_method f name = (f, Threw TypeError)"
  using assms by (simp_all add: get_property_def call_method_def)

text \<open>
  C7. When \<open>destroy\<close> has run to its end, the facade has no own field left (so every
  field it had, the copied \<open>configuration\<close> included, reads as missing) and its
  prototype is \<open>null\<close>; a call of a method that was delegated before, and of any other
  name, throws a \<open>TypeError\<close> and changes nothing.
\<close>

theorem destroy_strips_facade:
  assumes "destroy f = (f', Returned)"
  shows "own_fields f' = [] \<and> proto f' = NullPrototype
     \<and> (\<forall>field. field \<in> fst ` set (own_fields f) \<longrightarrow> get_property f' field = None)
     \<and> (\<forall>name. get_property f name = Some (Delegated name) \<longrightarrow>
           call_method f' name = (f', Threw TypeError))
     \<and> (\<forall>name. call_method f' name = (f', Threw TypeError))"
proof -
  from destroy_returned [OF assms]
  have e: "own_fields f' = []" and p: "proto f' = NullPrototype" by simp_all
  from inert [OF e p] e p show ?thesis by simp
qed

theorem destroy_strips_facade_witness:
  "destroy live_facade = (dead_facade, Returned)
   \<and> ''configuration'' \<in> fst ` set (own_fields live_facade)
   \<and> get_property dead_facade ''configuration'' = None
   \<and> get_property live_facade ''save'' = Some (Delegated ''save'')
   \<and> call_method dead_facade ''save'' = (dead_facade, Threw TypeError)"
proof -
  have d: "destroy live_facade = (dead_facade, Returned)" by code_simp
  have k: "map fst (own_fields live_facade) = [''isReady'', ''configuration'', ''destroy'']"
    by code_simp
  then have c: "''configuration'' \<in> fst ` set (own_fields live_facade)"
    by (simp flip: set_map)
  have s: "get_property live_facade ''save'' = Some (Delegated ''save'')" by code_simp
  from destroy_strips_facade [OF d] c s
  have "get_property dead_facade ''configuration'' = None"
    and "call_method dead_facade ''save'' = (dead_facade, Threw TypeError)"
    by blast+
  with d c s show ?thesis by simp
qed

text \<open>
  C9. When the first \<open>destroy()\<close> on a facade has completed, the facade has no own
  \<open>destroy\<close> any more and a \<open>null\<close> prototype, so reading \<open>destroy\<close> finds nothing
  and a second \<open>destroy()\<close> throws a \<open>TypeError\<close>: the teardown does not run again,
  the facade stays as it is.
\<close>

theorem second_destroy_fails:
  assumes "get_property f ''destroy'' = Some (Own DestroyFunction)"
    and "call_method f ''destroy'' = (f', Returned)"
  shows "map_of (own_fields f') ''destroy'' = None \<and> proto f' = NullPrototype
     \<and> get_property f' ''destroy'' = None
     \<and> call_method f' ''destroy'' = (f', Threw TypeError)"
proof -
  from assms have "destroy f = (f', Returned)"
    by (simp add: call_method_def)
  from destroy_returned [OF this]
  have e: "own_fields f' = []" and p: "proto f' = NullPrototype" by simp_all
  from inert [OF e p] e p show ?thesis by simp
qed

theorem second_destroy_fails_witness:
  "get_property live_facade ''destroy'' = Some (Own DestroyFunction)
   \<and> call_method live_facade ''destroy'' = (dead_facade, Returned)
   \<and> call_method dead_facade ''destroy'' = (dead_facade, Threw TypeError)"
proof -
  have g: "get_property live_facade ''destroy'' = Some (Own DestroyFunction)" by code_simp
  have c: "call_method live_facade ''destroy'' = (dead_facade, Returned)" by code_simp
  from second_destroy_fails [OF g c] g c show ?thesis by simp
qed

subsection \<open>The render phase and the readiness promise\<close>

lemma onTimeout_settled:
  "settled (onTimeout c) = settled c \<or> settled (onTimeout c) = settled c @ [Resolved]"
  by (simp add: onTimeout_def render_def focus_def onReady_call_def
      split: option.splits render_behaviour.splits)

text \<open>The functions of the promise are called at most once in a run, never both.\<close>

lemma settles_at_most_once: "length (settled (Core ids ms a)) \<le> 1"
proof (cases "validate (new_core ids ms a)")
  case Returned
  show ?thesis
  proof (cases "snd (start (init (new_core ids ms a)))")
    case Returned
    with onTimeout_settled [of "emit (Log LogReady) (fst (start (init (new_core ids ms a))))"]
    show ?thesis
      using \<open>validate (new_core ids ms a) = Returned\<close>
      by (auto simp: Core_valid start_frame init_frame)
  next
    case (Threw e)
    with \<open>validate (new_core ids ms a) = Returned\<close> show ?thesis
      by (simp add: Core_valid start_frame init_frame)
  next
    case NeverSettled
    with \<open>validate (new_core ids ms a) = Returned\<close> show ?thesis
      by (simp add: Core_valid start_frame init_frame)
  qed
next
  case (Threw e)
  then show ?thesis by (simp add: Core_invalid)
next
  case NeverSettled
  then show ?thesis by (simp add: validate_settles)
qed

text \<open>
  What the timer callback throws settles nothing: the promise is left as it was.
\<close>

lemma render_frame: "settled (fst (render c)) = settled c"
  by (simp add: render_def split: option.splits render_behaviour.splits)

lemma render_error_unhandled:
  assumes "render c = (c1, Threw e)"
  shows "settled (onTimeout c) = settled c \<and> events (onTimeout c) = events c1 @ [Unhandled e]"
proof -
  from render_frame [of c] assms have "settled c1 = settled c" by simp
  with assms show ?thesis by (simp add: onTimeout_def)
qed

lemma render_without_payload:
  "data (config c) = None \<Longrightarrow> render c = (c, Threw TypeError)"
  by (simp add: render_def split: option.splits)

lemma render_completion_resolves:
  "render c = (c1, Returned) \<Longrightarrow> focus c1 = (c2, Returned) \<Longrightarrow>
     settled (onTimeout c) = settled c2 @ [Resolved]"
  by (simp add: onTimeout_def onReady_call_def)

lemma without_payload_never_resolved:
  assumes "data (set_configuration a) = None"
  shows "isReady (Core ids ms a) \<noteq> Resolved"
proof (cases "validate (new_core ids ms a)")
  case Returned
  note v = this
  let ?c = "emit (Log LogReady) (fst (start (init (new_core ids ms a))))"
  show ?thesis
  proof (cases "snd (start (init (new_core ids ms a)))")
    case Returned
    from assms have "data (config ?c) = None"
      by (simp add: start_frame init_frame)
    from render_error_unhandled [OF render_without_payload [OF this]]
    have "settled (onTimeout ?c) = []"
      by (simp add: start_frame init_frame)
    with Returned show ?thesis
      by (simp add: Core_valid [OF v] isReady_def)
  next
    case (Threw e)
    then show ?thesis
      by (simp add: Core_valid [OF v] isReady_def start_frame init_frame)
  next
    case NeverSettled
    then show ?thesis
      by (simp add: Core_valid [OF v] isReady_def start_frame init_frame)
  qed
next
  case (Threw e)
  then show ?thesis by (simp add: Core_invalid isReady_def)
next
  case NeverSettled
  then show ?thesis by (simp add: validate_settles)
qed

lemma onTimeout_frame:
  "config (onTimeout c) = config c" "moduleInstances (onTimeout c) = moduleInstances c"
  by (simp_all add: onTimeout_def render_def focus_def onReady_call_def
      split: option.splits render_behaviour.splits)

lemma render_depends:
  "config c = config c' \<Longrightarrow> moduleInstances c = moduleInstances c' \<Longrightarrow>
     snd (render c) = snd (render c')"
  by (simp add: render_def split: option.splits render_behaviour.splits)

lemma focus_depends:
  "config c = config c' \<Longrightarrow> moduleInstances c = moduleInstances c' \<Longrightarrow>
     snd (focus c) = snd (focus c')"
  by (simp add: focus_def split: option.splits)

lemma focus_frame:
  "settled (fst (focus c)) = settled c" "config (fst (focus c)) = config c"
  "moduleInstances (fst (focus c)) = moduleInstances c"
  by (simp_all add: focus_def split: option.splits)

lemma render_keeps:
  "config (fst (render c)) = config c" "moduleInstances (fst (render c)) = moduleInstances c"
  by (simp_all add: render_def split: option.splits render_behaviour.splits)

lemma render_fulfils:
  "map_of (moduleInstances c) ''Renderer'' = Some r \<Longrightarrow> renderer r = RenderFulfils \<Longrightarrow>
   data (config c) = Some blocks \<Longrightarrow> snd (render c) = Returned"
  by (simp add: render_def)

lemma onTimeout_resolves:
  assumes "snd (render c) = Returned" and "snd (focus c) = Returned"
  shows "settled (onTimeout c) = settled c @ [Resolved]"
proof -
  obtain c1 where r: "render c = (c1, Returned)" using assms(1) by (cases "render c") simp
  then have c1: "c1 = fst (render c)" by simp
  have "snd (focus c1) = Returned"
    using focus_depends [of c1 c] assms(2) by (simp add: c1 render_keeps)
  then obtain c2 where f: "focus c1 = (c2, Returned)" by (cases "focus c1") simp
  then have "c2 = fst (focus c1)" by simp
  then have "settled c2 = settled c" by (simp add: focus_frame c1 render_frame)
  with r f show ?thesis by (simp add: onTimeout_def onReady_call_def)
qed

lemma exportAPI_returns:
  assumes "map_of (moduleInstances c) ''API'' = Some api"
  shows "snd (exportAPI c f) = Returned
     \<and> map_of (own_fields (fst (exportAPI c f))) ''configuration''
         = Some (ConfigValue (config c))"
  using assms
  by (simp add: exportAPI_def Let_def fieldsToExport_def exportField_def core_field_def
      get_configuration_def map_of_assign delete_conv')

lemma ModuleJS_resolved:
  assumes r: "isReady (Core ids ms a) = Resolved"
    and api: "map_of (moduleInstances (Core ids ms a)) ''API'' = Some api"
    and cb: "call_function (user_onReady a) = Returned"
  shows "ready (ModuleJS ids ms a) = Resolved
     \<and> get_property (ModuleJS ids ms a) ''configuration''
         = Some (Own (ConfigValue (config (Core ids ms a))))"
proof -
  let ?f = "\<lparr>Module = Some (Core ids ms a), own_fields = [(''isReady'', ReadyPromise)],
               proto = ModuleJS_prototype, ready = Pending, effects = []\<rparr>"
  from exportAPI_returns [OF api, of ?f]
  obtain f' where e: "exportAPI (Core ids ms a) ?f = (f', Returned)"
    and c: "map_of (own_fields f') ''configuration'' = Some (ConfigValue (config (Core ids ms a)))"
    by (cases "exportAPI (Core ids ms a) ?f") auto
  have m: "ModuleJS ids ms a = f'\<lparr>ready := Resolved\<rparr>"
    by (simp add: ModuleJS_def Let_def r e cb)
  show ?thesis
    by (simp add: m get_property_def c)
qed

text \<open>
  The run with a payload. For a configuration whose \<open>holder\<close> names an existing
  element (and whose \<open>holderId\<close> is not set), when no allow-listed \<open>prepare\<close> halts
  the chain: validation passes, the start sequence completes and the timer is set; the
  configuration the core keeps is the one the setter made of the caller's; and the
  functions of the readiness promise are called at most once. When the configuration
  has a payload, \<open>Renderer.render\<close> fulfils and the autofocus step returns, readiness is
  resolved; and with an \<open>API\<close> module and a readiness callback that returns, the
  facade's promise resolves and its \<open>configuration\<close> is that same configuration.
\<close>

lemma payload_startup_resolves:
  assumes h: "holder (set_configuration a) = Str t" "t \<in> set ids"
      "\<not> truthy (holderId (set_configuration a))"
    and s: "\<forall>m\<in>set modulesToPrepare. \<not> halts (init (new_core ids ms a)) m"
  shows "validate (new_core ids ms a) = Returned
     \<and> Log LogReady \<in> set (events (Core ids ms a))
     \<and> config (Core ids ms a) = set_configuration a
     \<and> length (settled (Core ids ms a)) \<le> 1
     \<and> (data (set_configuration a) = Some blocks \<longrightarrow>
        map_of (moduleInstances (init (new_core ids ms a))) ''Renderer'' = Some r \<longrightarrow>
        renderer r = RenderFulfils \<longrightarrow>
        snd (focus (init (new_core ids ms a))) = Returned \<longrightarrow>
          settled (Core ids ms a) = [Resolved]
          \<and> isReady (Core ids ms a) = Resolved
          \<and> (map_of (moduleInstances (init (new_core ids ms a))) ''API'' = Some api \<longrightarrow>
             call_function (user_onReady a) = Returned \<longrightarrow>
               ready (ModuleJS ids ms a) = Resolved
               \<and> get_property (ModuleJS ids ms a) ''configuration''
                   = Some (Own (ConfigValue (set_configuration a)))))"
proof -
  let ?c1 = "init (new_core ids ms a)"
  let ?c3 = "emit (Log LogReady) (fst (start ?c1))"
  have v: "validate (new_core ids ms a) = Returned"
    using h by (simp add: validate_def dom_get_def)
  have sr: "snd (start ?c1) = Returned"
    using s by (simp add: start_returned)
  have core: "Core ids ms a = onTimeout ?c3"
    by (simp add: Core_valid [OF v] sr)
  have cfg3: "config ?c3 = set_configuration a"
    by (simp add: start_frame init_frame)
  have reg3: "moduleInstances ?c3 = moduleInstances ?c1"
    by (simp add: start_frame)
  have set3: "settled ?c3 = []"
    by (simp add: start_frame init_frame)
  obtain es where "events (onTimeout ?c3) = events ?c3 @ es"
    using onTimeout_no_prepare by blast
  then have 1: "Log LogReady \<in> set (events (Core ids ms a))"
    by (simp add: core)
  have 2: "config (Core ids ms a) = set_configuration a"
    by (simp add: core onTimeout_frame start_frame init_frame)
  have 3: "length (settled (Core ids ms a)) \<le> 1"
    by (rule settles_at_most_once)
  have reg: "moduleInstances (Core ids ms a) = moduleInstances ?c1"
    by (simp add: core onTimeout_frame start_frame)
  have 4: "settled (Core ids ms a) = [Resolved] \<and> isReady (Core ids ms a) = Resolved
          \<and> (map_of (moduleInstances ?c1) ''API'' = Some api \<longrightarrow>
             call_function (user_onReady a) = Returned \<longrightarrow>
               ready (ModuleJS ids ms a) = Resolved
               \<and> get_property (ModuleJS ids ms a) ''configuration''
                   = Some (Own (ConfigValue (set_configuration a))))"
    if d: "data (set_configuration a) = Some blocks"
      and r: "map_of (moduleInstances ?c1) ''Renderer'' = Some r" "renderer r = RenderFulfils"
      and f: "snd (focus ?c1) = Returned"
  proof -
    have rr: "map_of (moduleInstances ?c3) ''Renderer'' = Some r"
      using r(1) by (simp add: start_frame)
    have dd: "data (config ?c3) = Some blocks"
      using d by (simp add: start_frame init_frame)
    have "snd (render ?c3) = Returned"
      by (rule render_fulfils [OF rr r(2) dd])
    moreover have "snd (focus ?c3) = Returned"
      using focus_depends [of ?c3 ?c1] f by (simp add: start_frame init_frame)
    ultimately have st: "settled (Core ids ms a) = [Resolved]"
      by (simp add: core onTimeout_resolves start_frame init_frame)
    then have ir: "isReady (Core ids ms a) = Resolved"
      by (simp add: isReady_def)
    have "ready (ModuleJS ids ms a) = Resolved
               \<and> get_property (ModuleJS ids ms a) ''configuration''
                   = Some (Own (ConfigValue (set_configuration a)))"
      if "map_of (moduleInstances ?c1) ''API'' = Some api"
        "call_function (user_onReady a) = Returned"
      using ModuleJS_resolved [OF ir, of api] that by (simp add: reg 2)
    with st ir show ?thesis by blast
  qed
  from v 1 2 3 4 show ?thesis by blast
qed

lemma payload_startup_resolves_example:
  "holder (set_configuration (ConfigObject payload_config)) = Str ''editor-holder''
   \<and> ''editor-holder'' \<in> set [''editor-holder'']
   \<and> \<not> truthy (holderId (set_configuration (ConfigObject payload_config)))
   \<and> filter (halts (init (new_core [''editor-holder''] healthy_modules
                              (ConfigObject payload_config)))) modulesToPrepare = []
   \<and> data (set_configuration (ConfigObject payload_config)) = Some [''first block'']
   \<and> map_option renderer
        (map_of (moduleInstances (init (new_core [''editor-holder''] healthy_modules
                                          (ConfigObject payload_config)))) ''Renderer'')
       = Some RenderFulfils
   \<and> snd (focus (init (new_core [''editor-holder''] healthy_modules
                          (ConfigObject payload_config)))) = Returned
   \<and> map_option ident
        (map_of (moduleInstances (init (new_core [''editor-holder''] healthy_modules
                                          (ConfigObject payload_config)))) ''API'')
       = Some 0
   \<and> call_function (user_onReady (ConfigObject payload_config)) = Returned
   \<and> isReady (Core [''editor-holder''] healthy_modules (ConfigObject payload_config))
       = Resolved
   \<and> ready live_facade = Resolved
   \<and> get_property live_facade ''configuration'' = Some (Own (ConfigValue payload_config))"
proof -
  let ?ids = "[''editor-holder'']" and ?a = "ConfigObject payload_config"
  let ?c1 = "init (new_core ?ids healthy_modules ?a)"
  have sc: "set_configuration ?a = payload_config"
    by (simp add: set_configuration_def)
  have h: "holder (set_configuration ?a) = Str ''editor-holder''"
    "''editor-holder'' \<in> set ?ids" "\<not> truthy (holderId (set_configuration ?a))"
    by (simp_all add: set_configuration_def payload_config_def holder_only_def)
  have n: "filter (halts ?c1) modulesToPrepare = []" by code_simp
  then have s: "\<forall>m\<in>set modulesToPrepare. \<not> halts ?c1 m"
    by (simp add: filter_empty_conv)
  have d: "data (set_configuration ?a) = Some [''first block'']"
    by (simp add: set_configuration_def payload_config_def holder_only_def)
  have r: "map_option renderer (map_of (moduleInstances ?c1) ''Renderer'') = Some RenderFulfils"
    by code_simp
  then obtain rd where rd: "map_of (moduleInstances ?c1) ''Renderer'' = Some rd"
    "renderer rd = RenderFulfils"
    by auto
  have f: "snd (focus ?c1) = Returned" by code_simp
  have ap: "map_option ident (map_of (moduleInstances ?c1) ''API'') = Some 0" by code_simp
  then obtain api where api: "map_of (moduleInstances ?c1) ''API'' = Some api" by auto
  have cb: "call_function (user_onReady ?a) = Returned" by code_simp
  from payload_startup_resolves
         [OF h s, of "[''first block'']" rd api] d rd f api cb
  have "isReady (Core ?ids healthy_modules ?a) = Resolved"
    and "ready (ModuleJS ?ids healthy_modules ?a) = Resolved"
    and "get_property (ModuleJS ?ids healthy_modules ?a) ''configuration''
           = Some (Own (ConfigValue (set_configuration ?a)))"
    by blast+
  with h n d r f ap cb show ?thesis
    by (simp add: live_facade_def sc)
qed

text \<open>
  C1. The claim asks that a configuration which names an existing mount target and
  carries no payload reach render completion and resolve readiness. The code does not.
  At \<open>{holder: "editor-holder"}\<close>, and at the bare string \<open>"editor-holder"\<close> that the
  setter turns into the same object, with the mount target present and every module well
  behaved: validation passes and the start sequence completes, but \<open>render\<close> reads
  \<open>blocks\<close> of the missing \<open>data\<close>; the \<open>TypeError\<close> is thrown inside the timer
  callback, neither \<open>onReady\<close> nor \<open>onFail\<close> is ever called, both readiness promises
  stay pending, and the facade never gets its \<open>configuration\<close>.
\<close>

theorem holder_only_run_never_settles:
  "validate (new_core [''editor-holder''] healthy_modules (ConfigObject holder_config))
     = Returned
   \<and> snd (start (init (new_core [''editor-holder''] healthy_modules
                          (ConfigObject holder_config)))) = Returned
   \<and> last (events (Core [''editor-holder''] healthy_modules (ConfigObject holder_config)))
     = Unhandled TypeError
   \<and> settled (Core [''editor-holder''] healthy_modules (ConfigObject holder_config)) = []
   \<and> isReady (Core [''editor-holder''] healthy_modules (ConfigObject holder_config))
     = Pending
   \<and> ready (ModuleJS [''editor-holder''] healthy_modules (ConfigObject holder_config))
     = Pending
   \<and> get_property (ModuleJS [''editor-holder''] healthy_modules (ConfigObject holder_config))
        ''configuration'' = None
   \<and> set_configuration (HolderString ''editor-holder'') = holder_config
   \<and> isReady (Core [''editor-holder''] healthy_modules (HolderString ''editor-holder''))
     = Pending
   \<and> ready (ModuleJS [''editor-holder''] healthy_modules (HolderString ''editor-holder''))
     = Pending"
  by code_simp

text \<open>
  C2, at a configuration with a payload whose \<open>Renderer.render\<close> rejects. The run
  reaches the render phase, the rejection is thrown inside the timer callback and is
  left unhandled: \<open>onFail\<close> is not called, and the readiness promises stay pending
  instead of being rejected with that error.
\<close>

theorem render_error_leaves_readiness_pending:
  "snd (start (init (new_core [''editor-holder''] render_fails
                       (ConfigObject payload_config)))) = Returned
   \<and> RenderSettled (Some (JsError ''render''))
       \<in> set (events (Core [''editor-holder''] render_fails (ConfigObject payload_config)))
   \<and> last (events (Core [''editor-holder''] render_fails (ConfigObject payload_config)))
     = Unhandled (JsError ''render'')
   \<and> settled (Core [''editor-holder''] render_fails (ConfigObject payload_config)) = []
   \<and> isReady (Core [''editor-holder''] render_fails (ConfigObject payload_config)) = Pending
   \<and> ready (ModuleJS [''editor-holder''] render_fails (ConfigObject payload_config))
     = Pending"
  by code_simp

end
